theory Spec2Isabelle
  imports Main "HOL-Library.Word"
begin

section \<open>Data model\<close>

text \<open>
  A Python \<open>bytes\<close> object is a sequence of integers in \<open>range(256)\<close>: a list of
  8-bit words. A Python \<open>str\<close> is a sequence of Unicode code points: a list of
  natural numbers (the substitution glyphs of \<open>MonospaceASCIIByte\<close> lie above 255, so
  the 8-bit \<open>char\<close> of HOL would not do). \<open>str\<close> turns a literal into such a sequence.
\<close>

type_synonym byte = "8 word"
type_synonym bytes = "byte list"
type_synonym codepoint = nat
type_synonym unicode = "codepoint list"

definition str :: "string \<Rightarrow> unicode" where
  "str s = map of_char s"

text \<open>The classes of \<open>codec.py\<close>, as registered in its dictionary \<open>names\<close>.\<close>

datatype codec =
  Hexify | HexifySpaces | ASCII | MonospaceASCIIByte | MonospaceASCII
  | MajinTenseiIIByte | Mt2GarbageTextPair

text \<open>
  The exceptions the module can raise. \<open>NotImplementedError\<close> carries the class whose
  name the message of \<open>Codec.encode\<close> and \<open>Codec.decode\<close> formats; \<open>KeyError\<close> the
  missing key.
\<close>

datatype error = NotImplementedError codec | ValueError | IndexError | KeyError int

section \<open>The built-ins the module calls\<close>

subsection \<open>Generators and joins\<close>

text \<open>
  A list comprehension or a generator consumed by \<open>join\<close> evaluates its element
  expression from left to right; the first exception ends the evaluation and is the
  result of the whole expression.
\<close>

fun traverse :: "('a \<Rightarrow> error + 'b) \<Rightarrow> 'a list \<Rightarrow> error + 'b list" where
  "traverse f [] = Inr []"
| "traverse f (x # xs) =
     (case f x of
        Inl e \<Rightarrow> Inl e
      | Inr y \<Rightarrow> (case traverse f xs of Inl e \<Rightarrow> Inl e | Inr ys \<Rightarrow> Inr (y # ys)))"

text \<open>\<open>sep.join(xs)\<close>; with the empty separator it is \<open>concat\<close>.\<close>

fun join :: "unicode \<Rightarrow> unicode list \<Rightarrow> unicode" where
  "join sep [] = []"
| "join sep [x] = x"
| "join sep (x # y # ys) = x @ sep @ join sep (y # ys)"

subsection \<open>\<open>hex\<close> and \<open>upper\<close>\<close>

definition hexdigit_lower :: "nat \<Rightarrow> codepoint" where
  "hexdigit_lower d = (if d < 10 then 48 + d else 87 + d)"

text \<open>The digits of \<open>hex(n)\<close>, that is \<open>hex(n)[2:]\<close>, for \<open>n \<ge> 0\<close>.\<close>

function hex_digits :: "nat \<Rightarrow> unicode" where
  "hex_digits n =
     (if n < 16 then [hexdigit_lower n]
      else hex_digits (n div 16) @ [hexdigit_lower (n mod 16)])"
  by pat_completeness auto
termination
  by (relation "measure id") auto

declare hex_digits.simps [simp del]

text \<open>
  \<open>hex(n)\<close> for the items of a \<open>bytes\<close> object, which are never negative.
\<close>

definition py_hex :: "nat \<Rightarrow> unicode" where
  "py_hex n = str ''0x'' @ hex_digits n"

text \<open>
  \<open>s.upper()\<close> on ASCII characters: the module applies it to the output of \<open>hex\<close> only.
\<close>

definition upper_ascii :: "unicode \<Rightarrow> unicode" where
  "upper_ascii s = map (\<lambda>c. if 97 \<le> c \<and> c \<le> 122 then c - 32 else c) s"

subsection \<open>Character classes\<close>

text \<open>
  \<open>chr(b).isprintable()\<close> for a code point below 256. Unicode classes as not
  printable the categories Other and Separator, the ASCII space excepted: below 256
  these are the controls \<open>0x00..0x1F\<close> and \<open>0x7F..0x9F\<close>, the no-break space \<open>0xA0\<close>
  and the soft hyphen \<open>0xAD\<close>.
\<close>

definition isprintable :: "codepoint \<Rightarrow> bool" where
  "isprintable c \<longleftrightarrow> (32 \<le> c \<and> c \<le> 126) \<or> (161 \<le> c \<and> c \<le> 255 \<and> c \<noteq> 173)"

text \<open>
  The whitespace of \<open>str.split()\<close> and \<open>str.isspace()\<close>: the code points whose
  bidirectional class is WS, B or S, or whose category is Zs.
\<close>

definition isspace :: "codepoint \<Rightarrow> bool" where
  "isspace c \<longleftrightarrow>
     (9 \<le> c \<and> c \<le> 13) \<or> (28 \<le> c \<and> c \<le> 32) \<or> c = 133 \<or> c = 160 \<or> c = 5760
     \<or> (8192 \<le> c \<and> c \<le> 8202) \<or> c = 8232 \<or> c = 8233 \<or> c = 8239 \<or> c = 8287
     \<or> c = 12288"

text \<open>The ASCII whitespace that the integer parser skips at both ends.\<close>

definition c_isspace :: "codepoint \<Rightarrow> bool" where
  "c_isspace c \<longleftrightarrow> (9 \<le> c \<and> c \<le> 13) \<or> c = 32"

subsection \<open>\<open>str.split()\<close>\<close>

text \<open>
  \<open>s.split()\<close> without a separator: the maximal runs of non-whitespace characters, in
  order. \<open>tok\<close> is the token read so far.
\<close>

fun split_aux :: "unicode \<Rightarrow> unicode \<Rightarrow> unicode list" where
  "split_aux tok [] = (if tok = [] then [] else [tok])"
| "split_aux tok (c # cs) =
     (if isspace c then (if tok = [] then split_aux [] cs else tok # split_aux [] cs)
      else split_aux (tok @ [c]) cs)"

definition py_split :: "unicode \<Rightarrow> unicode list" where
  "py_split s = split_aux [] s"

subsection \<open>\<open>int(s, base=16)\<close>\<close>

text \<open>
  The parser first maps the string to ASCII: a non-ASCII whitespace becomes a space, a
  non-ASCII decimal digit the ASCII digit of its value, any other non-ASCII character
  an invalid one. Which non-ASCII code points are decimal digits is a table of the
  Unicode database; it is the parameter \<open>udec\<close> of the model.
\<close>

definition to_ascii :: "(codepoint \<Rightarrow> nat option) \<Rightarrow> codepoint \<Rightarrow> codepoint" where
  "to_ascii udec c =
     (if c < 128 then c
      else if isspace c then 32
      else case udec c of
             Some d \<Rightarrow> if d < 10 then 48 + d else 63
           | None \<Rightarrow> 63)"

definition hex_digit :: "codepoint \<Rightarrow> int option" where
  "hex_digit c =
     (if 48 \<le> c \<and> c \<le> 57 then Some (int c - 48)
      else if 65 \<le> c \<and> c \<le> 70 then Some (int c - 55)
      else if 97 \<le> c \<and> c \<le> 102 then Some (int c - 87)
      else None)"

text \<open>
  The digits, with single underscores between them: \<open>acc\<close> is the value so far,
  \<open>prev\<close> says that the previous character was an underscore. The result is the
  value and the characters left unread; a doubled or trailing underscore is an error.
\<close>

fun scan_digits :: "int \<Rightarrow> bool \<Rightarrow> unicode \<Rightarrow> (int \<times> unicode) option" where
  "scan_digits acc prev [] = (if prev then None else Some (acc, []))"
| "scan_digits acc prev (c # cs) =
     (if c = 95 then (if prev then None else scan_digits acc True cs)
      else case hex_digit c of
             Some d \<Rightarrow> scan_digits (16 * acc + d) False cs
           | None \<Rightarrow> if prev then None else Some (acc, c # cs))"

text \<open>An optional sign: whether it is a minus, and the rest.\<close>

fun read_sign :: "unicode \<Rightarrow> bool \<times> unicode" where
  "read_sign [] = (False, [])"
| "read_sign (c # cs) =
     (if c = 43 then (False, cs) else if c = 45 then (True, cs) else (False, c # cs))"

text \<open>An optional prefix \<open>0x\<close> or \<open>0X\<close>, after which one underscore may stand.\<close>

fun read_prefix :: "unicode \<Rightarrow> unicode" where
  "read_prefix (c0 # c1 # cs) =
     (if c0 = 48 \<and> (c1 = 120 \<or> c1 = 88)
      then (case cs of [] \<Rightarrow> [] | u # r \<Rightarrow> if u = 95 then r else u # r)
      else c0 # c1 # cs)"
| "read_prefix cs = cs"

text \<open>
  \<open>int(s, base=16)\<close>: whitespace, sign, prefix, at least one digit, whitespace, and
  nothing else; \<open>None\<close> where Python raises \<open>ValueError\<close>.
\<close>

definition parse_int16 :: "(codepoint \<Rightarrow> nat option) \<Rightarrow> unicode \<Rightarrow> int option" where
  "parse_int16 udec s =
     (case read_sign (dropWhile c_isspace (map (to_ascii udec) s)) of
        (neg, body) \<Rightarrow>
          (case read_prefix body of
             [] \<Rightarrow> None
           | c # cs \<Rightarrow>
               if hex_digit c = None then None
               else (case scan_digits 0 False (c # cs) of
                       None \<Rightarrow> None
                     | Some (v, rest) \<Rightarrow>
                         if dropWhile c_isspace rest = [] then Some (if neg then - v else v)
                         else None)))"

definition py_int16 :: "(codepoint \<Rightarrow> nat option) \<Rightarrow> unicode \<Rightarrow> error + int" where
  "py_int16 udec s = (case parse_int16 udec s of None \<Rightarrow> Inl ValueError | Some v \<Rightarrow> Inr v)"

subsection \<open>\<open>bytes(list)\<close>\<close>

text \<open>\<open>bytes(ns)\<close> raises \<open>ValueError\<close> unless every item is in \<open>range(0, 256)\<close>.\<close>

definition py_bytes :: "int list \<Rightarrow> error + bytes" where
  "py_bytes ns =
     (if list_all (\<lambda>n. 0 \<le> n \<and> n < 256) ns then Inr (map word_of_int ns)
      else Inl ValueError)"

subsection \<open>Slices\<close>

text \<open>\<open>xs[::2]\<close>; then \<open>xs[1::2]\<close> is \<open>step2 (drop 1 xs)\<close>.\<close>

fun step2 :: "'a list \<Rightarrow> 'a list" where
  "step2 [] = []"
| "step2 [x] = [x]"
| "step2 (x # y # zs) = x # step2 zs"

section \<open>The codecs\<close>

subsection \<open>The abstract class\<close>

definition Codec_encode :: "codec \<Rightarrow> unicode \<Rightarrow> error + bytes" where
  "Codec_encode cls s = Inl (NotImplementedError cls)"

definition Codec_decode :: "codec \<Rightarrow> bytes \<Rightarrow> error + unicode" where
  "Codec_decode cls bytestr = Inl (NotImplementedError cls)"

subsection \<open>Hexify\<close>

definition Hexify_encode :: "(codepoint \<Rightarrow> nat option) \<Rightarrow> unicode \<Rightarrow> error + bytes" where
  "Hexify_encode udec s =
     (case traverse (\<lambda>i. py_int16 udec (take 2 (drop i s))) [0..<length s] of
        Inl e \<Rightarrow> Inl e
      | Inr ns \<Rightarrow> py_bytes ns)"

text \<open>The element expression \<open>("0"+hex(n)[2:])[-2:].upper()\<close>.\<close>

definition hex2 :: "byte \<Rightarrow> unicode" where
  "hex2 n =
     (let padded = str ''0'' @ drop 2 (py_hex (unat n))
      in upper_ascii (drop (length padded - 2) padded))"

definition Hexify_decode :: "bytes \<Rightarrow> unicode" where
  "Hexify_decode bytestr = join [] (map hex2 bytestr)"

subsection \<open>HexifySpaces\<close>

definition HexifySpaces_encode :: "(codepoint \<Rightarrow> nat option) \<Rightarrow> unicode \<Rightarrow> error + bytes" where
  "HexifySpaces_encode udec s =
     (case traverse (py_int16 udec) (py_split s) of
        Inl e \<Rightarrow> Inl e
      | Inr ns \<Rightarrow> py_bytes ns)"

definition HexifySpaces_decode :: "bytes \<Rightarrow> unicode" where
  "HexifySpaces_decode bytestr = join (str '' '') (map (\<lambda>n. Hexify_decode [n]) bytestr)"

subsection \<open>ASCII\<close>

definition ASCII_decode :: "bytes \<Rightarrow> unicode" where
  "ASCII_decode bytestr = join [] (map (\<lambda>b. [unat b]) bytestr)"

subsection \<open>MonospaceASCIIByte and MonospaceASCII\<close>

definition replacements :: "codepoint list" where
  "replacements = [2 ^ 8 ..< 2 ^ 9]"

definition MonospaceASCIIByte_decode :: "bytes \<Rightarrow> error + unicode" where
  "MonospaceASCIIByte_decode bytestr =
     (case bytestr of
        [] \<Rightarrow> Inl IndexError
      | b # _ \<Rightarrow>
          if \<not> isprintable (unat b) then Inr [replacements ! unat b]
          else Inr [unat b])"

definition MonospaceASCII_decode :: "bytes \<Rightarrow> error + unicode" where
  "MonospaceASCII_decode bytestr =
     (case traverse (\<lambda>b. MonospaceASCIIByte_decode [b]) bytestr of
        Inl e \<Rightarrow> Inl e
      | Inr glyphs \<Rightarrow> Inr (join [] glyphs))"

subsection \<open>MajinTenseiIIByte\<close>

text \<open>
  The class attribute \<open>transliter\<close> is the dictionary that \<open>read_yaml\<close> loads from
  \<open>resources/hexmap.yaml\<close>. The resource is not part of the sources: the dictionary is
  the parameter \<open>transliter\<close> of the model, from integer keys to texts.
\<close>

definition MajinTenseiIIByte_decode :: "(int \<rightharpoonup> unicode) \<Rightarrow> bytes \<Rightarrow> error + unicode" where
  "MajinTenseiIIByte_decode transliter bytestr =
     (case bytestr of
        [] \<Rightarrow> Inl IndexError
      | b # _ \<Rightarrow>
          (case transliter (uint b) of
             None \<Rightarrow> Inl (KeyError (uint b))
           | Some glyph \<Rightarrow> Inr glyph))"

subsection \<open>Mt2GarbageTextPair\<close>

definition Mt2GarbageTextPair_decode :: "(int \<rightharpoonup> unicode) \<Rightarrow> bytes \<Rightarrow> error + unicode" where
  "Mt2GarbageTextPair_decode transliter bytestr =
     (case traverse (\<lambda>b. MonospaceASCIIByte_decode [b]) (step2 (drop 1 bytestr)) of
        Inl e \<Rightarrow> Inl e
      | Inr gs \<Rightarrow>
          (case traverse (\<lambda>b. MajinTenseiIIByte_decode transliter [b]) (step2 bytestr) of
             Inl e \<Rightarrow> Inl e
           | Inr ts \<Rightarrow> Inr (join [] gs @ join [] ts)))"

subsection \<open>Method resolution\<close>

text \<open>
  \<open>cls.encode(s)\<close> and \<open>cls.decode(bytestr)\<close> for a class \<open>cls\<close> of the module: the
  function in the body of the class when there is one, the class method inherited from
  \<open>Codec\<close> otherwise.
\<close>

fun defines_encode :: "codec \<Rightarrow> bool" where
  "defines_encode Hexify = True"
| "defines_encode HexifySpaces = True"
| "defines_encode _ = False"

fun encode :: "(codepoint \<Rightarrow> nat option) \<Rightarrow> codec \<Rightarrow> unicode \<Rightarrow> error + bytes" where
  "encode udec Hexify s = Hexify_encode udec s"
| "encode udec HexifySpaces s = HexifySpaces_encode udec s"
| "encode udec cls s = Codec_encode cls s"

fun decode :: "(int \<rightharpoonup> unicode) \<Rightarrow> codec \<Rightarrow> bytes \<Rightarrow> error + unicode" where
  "decode transliter Hexify bytestr = Inr (Hexify_decode bytestr)"
| "decode transliter HexifySpaces bytestr = Inr (HexifySpaces_decode bytestr)"
| "decode transliter ASCII bytestr = Inr (ASCII_decode bytestr)"
| "decode transliter MonospaceASCIIByte bytestr = MonospaceASCIIByte_decode bytestr"
| "decode transliter MonospaceASCII bytestr = MonospaceASCII_decode bytestr"
| "decode transliter MajinTenseiIIByte bytestr = MajinTenseiIIByte_decode transliter bytestr"
| "decode transliter Mt2GarbageTextPair bytestr = Mt2GarbageTextPair_decode transliter bytestr"

section \<open>Notions of the specification\<close>

text \<open>
  The uppercase hexadecimal character of a digit value below 16, as the specification
  of \<open>Hexify.decode\<close> words it.
\<close>

definition upper_hexchar :: "nat \<Rightarrow> codepoint" where
  "upper_hexchar d = (if d < 10 then 48 + d else 55 + d)"

text \<open>
  A hexadecimal digit, of either case.
\<close>

definition is_hex :: "codepoint \<Rightarrow> bool" where
  "is_hex c \<longleftrightarrow> hex_digit c \<noteq> None"

text \<open>
  The number that a string of hexadecimal digits denotes, the most significant digit
  first.
\<close>

definition hex_value :: "unicode \<Rightarrow> int" where
  "hex_value t = foldl (\<lambda>a c. 16 * a + (case hex_digit c of Some d \<Rightarrow> d | None \<Rightarrow> 0)) 0 t"

text \<open>
  Splitting a string at every single occurrence of a separator character, as
  \<open>s.split(" ")\<close> does for the space: between two adjacent separators, before a leading
  and after a trailing one there is an empty token, and the empty string is one empty
  token.
\<close>

fun split_on_aux :: "codepoint \<Rightarrow> unicode \<Rightarrow> unicode \<Rightarrow> unicode list" where
  "split_on_aux sep tok [] = [tok]"
| "split_on_aux sep tok (c # cs) =
     (if c = sep then tok # split_on_aux sep [] cs else split_on_aux sep (tok @ [c]) cs)"

definition split_on :: "codepoint \<Rightarrow> unicode \<Rightarrow> unicode list" where
  "split_on sep s = split_on_aux sep [] s"

text \<open>
  The items at the even indices \<open>0, 2, 4, ...\<close> and at the odd indices \<open>1, 3, 5, ...\<close> of
  a sequence, in their order: the two partitions by index parity.
\<close>

definition even_indexed :: "'a list \<Rightarrow> 'a list" where
  "even_indexed xs = map (\<lambda>i. xs ! (2 * i)) [0..<(length xs + 1) div 2]"

definition odd_indexed :: "'a list \<Rightarrow> 'a list" where
  "odd_indexed xs = map (\<lambda>i. xs ! (2 * i + 1)) [0..<length xs div 2]"

text \<open>
  The concatenation \<open>++\<close> of two decoded strings, either of which may be an error
  instead; the error of the left operand comes first.
\<close>

definition append_results :: "error + unicode \<Rightarrow> error + unicode \<Rightarrow> error + unicode" where
  "append_results a b =
     (case a of
        Inl e \<Rightarrow> Inl e
      | Inr x \<Rightarrow> (case b of Inl e \<Rightarrow> Inl e | Inr y \<Rightarrow> Inr (x @ y)))"

text \<open>
  Decoding a sequence through the table codec, byte after byte, and concatenating the
  entries.
\<close>

definition table_decode_each :: "(int \<rightharpoonup> unicode) \<Rightarrow> bytes \<Rightarrow> error + unicode" where
  "table_decode_each transliter bs =
     (case traverse (\<lambda>b. MajinTenseiIIByte_decode transliter [b]) bs of
        Inl e \<Rightarrow> Inl e
      | Inr ts \<Rightarrow> Inr (concat ts))"








section \<open>Auxiliary facts\<close>

lemma upper_hexchar_table: "map upper_hexchar [0..<16] = str ''0123456789ABCDEF''"
  by (simp add: upper_hexchar_def str_def upt_rec)

lemma join_Nil_sep: "join [] xs = concat xs"
  by (induction "[]::unicode" xs rule: join.induct) simp_all

lemma unat_byte_less: "unat (b::byte) < 256"
  using unsigned_less [of b, where 'a = nat] by simp

lemma hex_digits_byte:
  assumes "n < 256"
  shows "hex_digits n =
    (if n < 16 then [hexdigit_lower n]
     else [hexdigit_lower (n div 16), hexdigit_lower (n mod 16)])"
proof (cases "n < 16")
  case True
  then show ?thesis by (simp add: hex_digits.simps [of n])
next
  case False
  from assms have "n div 16 < 16" by simp
  then have "hex_digits (n div 16) = [hexdigit_lower (n div 16)]"
    by (simp add: hex_digits.simps [of "n div 16"])
  with False show ?thesis by (simp add: hex_digits.simps [of n])
qed

lemma upper_hexdigit_lower:
  "d < 16 \<Longrightarrow> upper_ascii [hexdigit_lower d] = [upper_hexchar d]"
  by (simp add: upper_ascii_def hexdigit_lower_def upper_hexchar_def)

lemma hex2_eq: "hex2 b = [upper_hexchar (unat b div 16), upper_hexchar (unat b mod 16)]"
proof -
  let ?n = "unat b"
  have n: "?n < 256" by (rule unat_byte_less)
  then have hi: "?n div 16 < 16" by simp
  have lo: "?n mod 16 < 16" by simp
  show ?thesis
  proof (cases "?n < 16")
    case True
    then have "hex2 b = upper_ascii [48, hexdigit_lower ?n]"
      by (simp add: hex2_def py_hex_def str_def hex_digits_byte [OF n])
    also have "\<dots> = [upper_hexchar 0, upper_hexchar ?n]"
      using True upper_hexdigit_lower [of ?n]
      by (simp add: upper_ascii_def upper_hexchar_def)
    finally show ?thesis using True by simp
  next
    case False
    then have "hex2 b = upper_ascii [hexdigit_lower (?n div 16), hexdigit_lower (?n mod 16)]"
      by (simp add: hex2_def py_hex_def str_def hex_digits_byte [OF n])
    also have "\<dots> = [upper_hexchar (?n div 16), upper_hexchar (?n mod 16)]"
      using upper_hexdigit_lower [OF hi] upper_hexdigit_lower [OF lo]
      by (simp add: upper_ascii_def)
    finally show ?thesis .
  qed
qed

lemma replacements_nth: "replacements ! unat (b::byte) = 256 + unat b"
proof -
  have "unat b < 256" by (rule unat_byte_less)
  then have "(2::nat) ^ 8 + unat b < 2 ^ 9" by simp
  then have "[2 ^ 8..<2 ^ 9] ! unat b = 2 ^ 8 + unat b" by (rule nth_upt)
  then show ?thesis by (simp add: replacements_def del: upt_rec_numeral)
qed

lemma traverse_Inr_map:
  "(\<And>x. x \<in> set xs \<Longrightarrow> f x = Inr (g x)) \<Longrightarrow> traverse f xs = Inr (map g xs)"
  by (induction xs) simp_all

lemma is_hex_facts:
  assumes "is_hex c"
  shows "c < 128" "c \<noteq> 95" "c \<noteq> 43" "c \<noteq> 45" "c \<noteq> 120" "c \<noteq> 88"
    "\<not> c_isspace c" "\<not> isspace c"
  using assms by (auto simp: is_hex_def hex_digit_def c_isspace_def isspace_def split: if_splits)

lemma scan_digits_hex:
  "list_all is_hex t \<Longrightarrow>
   scan_digits acc False t =
     Some (foldl (\<lambda>a c. 16 * a + (case hex_digit c of Some d \<Rightarrow> d | None \<Rightarrow> 0)) acc t, [])"
proof (induction t arbitrary: acc)
  case Nil
  then show ?case by simp
next
  case (Cons c t)
  then have c: "is_hex c" and t: "list_all is_hex t" by simp_all
  from c obtain d where d: "hex_digit c = Some d" by (auto simp: is_hex_def)
  from c have "c \<noteq> 95" by (rule is_hex_facts)
  with d Cons.IH [OF t] show ?case by simp
qed

lemma map_to_ascii_hex: "list_all is_hex t \<Longrightarrow> map (to_ascii udec) t = t"
  by (induction t) (simp_all add: to_ascii_def is_hex_facts)

lemma read_prefix_hex: "list_all is_hex t \<Longrightarrow> read_prefix t = t"
  by (cases t rule: read_prefix.cases) (auto dest: is_hex_facts)

lemma parse_int16_hex:
  assumes "t \<noteq> []" and "list_all is_hex t"
  shows "parse_int16 udec t = Some (hex_value t)"
proof -
  from assms obtain c cs where t: "t = c # cs" by (cases t) auto
  with assms have c: "is_hex c" by simp
  have m: "map (to_ascii udec) t = t" by (rule map_to_ascii_hex [OF assms(2)])
  have d: "dropWhile c_isspace t = t" using c t by (simp add: is_hex_facts)
  have s: "read_sign t = (False, t)" using c t by (simp add: is_hex_facts)
  have p: "read_prefix t = t" by (rule read_prefix_hex [OF assms(2)])
  have h: "hex_digit c \<noteq> None" using c by (simp add: is_hex_def)
  have sc: "scan_digits 0 False (c # cs) = Some (hex_value t, [])"
    using scan_digits_hex [OF assms(2), of 0] by (simp only: t hex_value_def)
  have "parse_int16 udec t =
    (case t of [] \<Rightarrow> None
     | c # cs \<Rightarrow>
         if hex_digit c = None then None
         else (case scan_digits 0 False (c # cs) of
                 None \<Rightarrow> None
               | Some (v, rest) \<Rightarrow>
                   if dropWhile c_isspace rest = [] then Some (if False then - v else v)
                   else None))"
    by (simp only: parse_int16_def m d s p prod.case)
  also have "\<dots> = Some (hex_value t)"
    using h by (simp only: t list.case sc) simp
  finally show ?thesis .
qed

lemma split_aux_token:
  "list_all (\<lambda>c. \<not> isspace c) t \<Longrightarrow> split_aux tok (t @ rest) = split_aux (tok @ t) rest"
  by (induction t arbitrary: tok) simp_all

lemma split_aux_space:
  "ws \<noteq> [] \<Longrightarrow> list_all isspace ws \<Longrightarrow>
   split_aux tok (ws @ rest) = (if tok = [] then split_aux [] rest else tok # split_aux [] rest)"
proof (induction ws arbitrary: tok)
  case Nil
  then show ?case by simp
next
  case (Cons w ws)
  show ?case
  proof (cases "ws = []")
    case True
    with Cons.prems show ?thesis by simp
  next
    case False
    with Cons.prems Cons.IH [of "[]"] show ?thesis by simp
  qed
qed

lemma py_split_single:
  assumes "t \<noteq> []" and "list_all (\<lambda>c. \<not> isspace c) t"
  shows "py_split t = [t]"
  using split_aux_token [OF assms(2), of "[]" "[]"] assms(1) by (simp add: py_split_def)

lemma list_all_hex_nonspace: "list_all is_hex t \<Longrightarrow> list_all (\<lambda>c. \<not> isspace c) t"
  by (induction t) (simp_all add: is_hex_facts)

lemma Hexify_encode_41: "Hexify_encode udec (str ''41'') = Inr [0x41, 0x01]"
  by (simp add: Hexify_encode_def str_def py_int16_def parse_int16_def to_ascii_def
      c_isspace_def hex_digit_def py_bytes_def upt_rec)

lemma hex_digit_upper_hexchar: "d < 16 \<Longrightarrow> hex_digit (upper_hexchar d) = Some (int d)"
  by (auto simp: hex_digit_def upper_hexchar_def)

lemma hex2_is_hex: "list_all is_hex (hex2 b)"
proof -
  have "unat b div 16 < 16" using unat_byte_less [of b] by simp
  moreover have "unat b mod 16 < 16" by simp
  ultimately show ?thesis
    by (simp add: hex2_eq is_hex_def hex_digit_upper_hexchar)
qed

lemma hex2_not_Nil: "hex2 b \<noteq> []"
  by (simp add: hex2_eq)

lemma hex_value_hex2: "hex_value (hex2 b) = uint b"
proof -
  have hi: "unat b div 16 < 16" using unat_byte_less [of b] by simp
  have lo: "unat b mod 16 < 16" by simp
  have "hex_value (hex2 b) = 16 * int (unat b div 16) + int (unat b mod 16)"
    by (simp add: hex2_eq hex_value_def hex_digit_upper_hexchar [OF hi]
        hex_digit_upper_hexchar [OF lo])
  also have "\<dots> = int (unat b)"
  proof -
    have "16 * (unat b div 16) + unat b mod 16 = unat b" by simp
    then show ?thesis by linarith
  qed
  also have "\<dots> = uint b" by simp
  finally show ?thesis .
qed

lemma HexifySpaces_decode_join: "HexifySpaces_decode bs = join [32] (map hex2 bs)"
  by (simp add: HexifySpaces_decode_def Hexify_decode_def str_def)

lemma py_split_join:
  "list_all (\<lambda>t. t \<noteq> [] \<and> list_all (\<lambda>c. \<not> isspace c) t) toks \<Longrightarrow>
   py_split (join [32] toks) = toks"
proof (induction "[32::nat]" toks rule: join.induct)
  case 1
  then show ?case by (simp add: py_split_def)
next
  case (2 x)
  then show ?case by (simp add: py_split_single)
next
  case (3 x y ys)
  then have x: "x \<noteq> []" "list_all (\<lambda>c. \<not> isspace c) x" by simp_all
  have sp: "[32::nat] \<noteq> []" "list_all isspace [32]" by (simp_all add: isspace_def)
  have "py_split (join [32] (x # y # ys)) = split_aux x ([32] @ join [32] (y # ys))"
    using split_aux_token [OF x(2), of "[]"] by (simp add: py_split_def)
  also have "\<dots> = x # py_split (join [32] (y # ys))"
    using split_aux_space [OF sp, of x] x(1) by (simp add: py_split_def)
  also have "py_split (join [32] (y # ys)) = y # ys"
    using 3 by simp
  finally show ?case .
qed

lemma split_on_aux_token:
  "list_all (\<lambda>c. c \<noteq> sep) t \<Longrightarrow>
   split_on_aux sep tok (t @ rest) = split_on_aux sep (tok @ t) rest"
  by (induction t arbitrary: tok) simp_all

lemma split_on_join:
  "toks \<noteq> [] \<Longrightarrow> list_all (list_all (\<lambda>c. c \<noteq> sep)) toks \<Longrightarrow>
   split_on sep (join [sep] toks) = toks"
proof (induction "[sep]" toks rule: join.induct)
  case 1
  then show ?case by simp
next
  case (2 x)
  then show ?case
    using split_on_aux_token [of sep x "[]" "[]"] by (simp add: split_on_def)
next
  case (3 x y ys)
  then have x: "list_all (\<lambda>c. c \<noteq> sep) x" by simp
  have "split_on sep (join [sep] (x # y # ys)) =
        split_on_aux sep x (sep # join [sep] (y # ys))"
    using split_on_aux_token [OF x, of "[]"] by (simp add: split_on_def)
  also have "\<dots> = x # split_on sep (join [sep] (y # ys))"
    by (simp add: split_on_def)
  also have "split_on sep (join [sep] (y # ys)) = y # ys"
    using 3 by simp
  finally show ?case .
qed

lemma hex2_tokens:
  "list_all (\<lambda>t. t \<noteq> [] \<and> list_all (\<lambda>c. \<not> isspace c) t) (map hex2 bs)"
  by (induction bs) (simp_all add: hex2_not_Nil list_all_hex_nonspace hex2_is_hex)

lemma hex2_no_space: "list_all (list_all (\<lambda>c. c \<noteq> 32)) (map hex2 bs)"
proof (induction bs)
  case Nil
  then show ?case by simp
next
  case (Cons b bs)
  have "list_all (\<lambda>c. \<not> isspace c) (hex2 b)"
    by (rule list_all_hex_nonspace [OF hex2_is_hex])
  then have "list_all (\<lambda>c. c \<noteq> 32) (hex2 b)"
    by (rule list.pred_mono_strong) (auto simp: isspace_def)
  with Cons show ?case by simp
qed

lemma HexifySpaces_roundtrip: "HexifySpaces_encode udec (HexifySpaces_decode bs) = Inr bs"
proof -
  have sp: "py_split (HexifySpaces_decode bs) = map hex2 bs"
    by (simp only: HexifySpaces_decode_join py_split_join [OF hex2_tokens])
  have "traverse (py_int16 udec) (map hex2 bs) = Inr (map hex_value (map hex2 bs))"
    by (rule traverse_Inr_map)
       (auto simp: py_int16_def parse_int16_hex hex2_not_Nil hex2_is_hex)
  also have "map hex_value (map hex2 bs) = map uint bs"
    by (simp add: hex_value_hex2)
  finally have tr: "traverse (py_int16 udec) (map hex2 bs) = Inr (map uint bs)" .
  have rng: "list_all (\<lambda>n. 0 \<le> n \<and> n < 256) (map uint bs)"
  proof (induction bs)
    case Nil
    then show ?case by simp
  next
    case (Cons b bs)
    have "uint b < 256" using uint_bounded [of b] by simp
    with Cons show ?case by simp
  qed
  have wb: "map word_of_int (map uint bs) = bs"
    by (induction bs) simp_all
  have pb: "py_bytes (map uint bs) = Inr bs"
    by (simp only: py_bytes_def rng if_True wb)
  show ?thesis
    by (simp only: HexifySpaces_encode_def sp tr sum.case pb)
qed

lemma traverse_length: "traverse f xs = Inr ys \<Longrightarrow> length ys = length xs"
  by (induction xs arbitrary: ys) (auto split: sum.splits)

lemma py_bytes_length: "py_bytes ns = Inr bs \<Longrightarrow> length bs = length ns"
  by (auto simp: py_bytes_def split: if_splits)

lemma py_bytes_error: "py_bytes ns = Inl e \<Longrightarrow> e = ValueError"
  by (auto simp: py_bytes_def split: if_splits)

lemma Hexify_decode_41: "Hexify_decode [0x41] = str ''41''"
  by (simp add: Hexify_decode_def hex2_eq upper_hexchar_def str_def)

lemma length_step2: "length (step2 xs) = (length xs + 1) div 2"
  by (induction xs rule: step2.induct) simp_all

lemma nth_step2: "i < length (step2 xs) \<Longrightarrow> step2 xs ! i = xs ! (2 * i)"
proof (induction xs arbitrary: i rule: step2.induct)
  case 1
  then show ?case by simp
next
  case (2 x)
  then show ?case by simp
next
  case (3 x y zs)
  then show ?case by (cases i) simp_all
qed

lemma step2_even_indexed: "step2 xs = even_indexed xs"
  by (rule nth_equalityI) (simp_all add: even_indexed_def length_step2 nth_step2)

lemma step2_drop_odd_indexed: "step2 (drop 1 xs) = odd_indexed xs"
proof (cases xs)
  case Nil
  then show ?thesis by (simp add: odd_indexed_def)
next
  case (Cons x r)
  have "step2 r = map (\<lambda>i. r ! (2 * i)) [0..<(length r + 1) div 2]"
    by (simp only: step2_even_indexed even_indexed_def)
  with Cons show ?thesis by (simp add: odd_indexed_def)
qed

lemma length_even_odd_indexed:
  "length (even_indexed xs) = length (odd_indexed xs) + length xs mod 2"
  by (simp add: even_indexed_def odd_indexed_def) presburger

lemma MonospaceASCIIByte_decode_single:
  "MonospaceASCIIByte_decode [b] =
     Inr [if isprintable (unat b) then unat b else 256 + unat b]"
  by (simp add: MonospaceASCIIByte_decode_def replacements_nth)

lemma traverse_MonospaceASCIIByte:
  "traverse (\<lambda>b. MonospaceASCIIByte_decode [b]) bs =
     Inr (map (\<lambda>b. [if isprintable (unat b) then unat b else 256 + unat b]) bs)"
  by (rule traverse_Inr_map) (rule MonospaceASCIIByte_decode_single)

lemma MonospaceASCII_decode_eq:
  "MonospaceASCII_decode bs =
     Inr (map (\<lambda>b. if isprintable (unat b) then unat b else 256 + unat b) bs)"
proof -
  have "concat (map (\<lambda>b. [if isprintable (unat b) then unat b else 256 + unat b]) bs) =
        map (\<lambda>b. if isprintable (unat b) then unat b else 256 + unat b) bs"
    by (induction bs) simp_all
  then show ?thesis
    by (simp add: MonospaceASCII_decode_def traverse_MonospaceASCIIByte join_Nil_sep)
qed

lemma Mt2GarbageTextPair_decode_eq:
  "Mt2GarbageTextPair_decode transliter bs =
     append_results (MonospaceASCII_decode (odd_indexed bs))
       (table_decode_each transliter (even_indexed bs))"
proof -
  have "Mt2GarbageTextPair_decode transliter bs =
     (case traverse (\<lambda>b. MonospaceASCIIByte_decode [b]) (odd_indexed bs) of
        Inl e \<Rightarrow> Inl e
      | Inr gs \<Rightarrow>
          (case traverse (\<lambda>b. MajinTenseiIIByte_decode transliter [b]) (even_indexed bs) of
             Inl e \<Rightarrow> Inl e
           | Inr ts \<Rightarrow> Inr (join [] gs @ join [] ts)))"
    by (simp only: Mt2GarbageTextPair_decode_def step2_drop_odd_indexed)
       (simp only: step2_even_indexed)
  then show ?thesis
    by (simp add: MonospaceASCII_decode_def append_results_def table_decode_each_def
        join_Nil_sep split: sum.splits)
qed

lemma table_decode_each_defined:
  assumes "list_all (\<lambda>b. transliter (uint b) \<noteq> None) bs"
  shows "table_decode_each transliter bs =
     Inr (concat (map (\<lambda>b. case transliter (uint b) of Some t \<Rightarrow> t | None \<Rightarrow> []) bs))"
proof -
  have "traverse (\<lambda>b. MajinTenseiIIByte_decode transliter [b]) bs =
        Inr (map (\<lambda>b. case transliter (uint b) of Some t \<Rightarrow> t | None \<Rightarrow> []) bs)"
    using assms
    by (intro traverse_Inr_map)
       (auto simp: MajinTenseiIIByte_decode_def list_all_iff split: option.splits)
  then show ?thesis by (simp add: table_decode_each_def)
qed



lemma hex_digit_underscore: "hex_digit 95 = None"
  by (simp add: hex_digit_def)
















lemma hex_value_nonneg: "0 \<le> hex_value t"
proof -
  have "0 \<le> foldl (\<lambda>a c. 16 * a + (case hex_digit c of Some d \<Rightarrow> d | None \<Rightarrow> 0)) a u"
    if "0 \<le> a" for a u
    using that
    by (induction u arbitrary: a) (auto simp: hex_digit_def split: option.splits if_splits)
  then show ?thesis by (simp add: hex_value_def)
qed


lemma split_aux_lead:
  "list_all isspace lead \<Longrightarrow> split_aux [] (lead @ rest) = split_aux [] rest"
  using split_aux_space [of lead "[]" rest] by (cases "lead = []") simp_all

lemma split_aux_spaced:
  assumes "list_all (\<lambda>(t, w). t \<noteq> [] \<and> list_all (\<lambda>c. \<not> isspace c) t \<and> list_all isspace w) tws"
    and "list_all (\<lambda>(t, w). w \<noteq> []) (butlast tws)"
  shows "split_aux [] (concat (map (\<lambda>(t, w). t @ w) tws)) = map fst tws"
  using assms
proof (induction tws)
  case Nil
  then show ?case by simp
next
  case (Cons p tws)
  obtain t w where p: "p = (t, w)" by (cases p)
  from Cons.prems(1) p have t: "t \<noteq> []" "list_all (\<lambda>c. \<not> isspace c) t"
    and w: "list_all isspace w"
    and rest: "list_all (\<lambda>(t, w). t \<noteq> [] \<and> list_all (\<lambda>c. \<not> isspace c) t \<and> list_all isspace w) tws"
    by simp_all
  let ?r = "concat (map (\<lambda>(t, w). t @ w) tws)"
  have 1: "split_aux [] (t @ w @ ?r) = split_aux t (w @ ?r)"
    using split_aux_token [OF t(2), of "[]" "w @ ?r"] by simp
  show ?case
  proof (cases "tws = []")
    case True
    have "split_aux t w = [t]"
      using split_aux_space [OF _ w, of t "[]"] t(1) by (cases "w = []") simp_all
    with 1 True p show ?thesis by simp
  next
    case False
    with Cons.prems(2) p have wn: "w \<noteq> []"
      and b: "list_all (\<lambda>(t, w). w \<noteq> []) (butlast tws)" by simp_all
    have "split_aux t (w @ ?r) = t # split_aux [] ?r"
      using split_aux_space [OF wn w, of t ?r] t(1) by simp
    with 1 Cons.IH [OF rest b] p show ?thesis by simp
  qed
qed

lemma py_split_spaced:
  assumes "list_all isspace lead"
    and "list_all (\<lambda>(t, w). t \<noteq> [] \<and> list_all (\<lambda>c. \<not> isspace c) t \<and> list_all isspace w) tws"
    and "list_all (\<lambda>(t, w). w \<noteq> []) (butlast tws)"
  shows "py_split (lead @ concat (map (\<lambda>(t, w). t @ w) tws)) = map fst tws"
  by (simp only: py_split_def split_aux_lead [OF assms(1)] split_aux_spaced [OF assms(2,3)])

lemma HexifySpaces_encode_spaced:
  assumes "list_all isspace lead"
    and "list_all (\<lambda>(t, w). t \<noteq> [] \<and> list_all is_hex t \<and> hex_value t < 256 \<and> list_all isspace w) tws"
    and "list_all (\<lambda>(t, w). w \<noteq> []) (butlast tws)"
  shows "HexifySpaces_encode udec (lead @ concat (map (\<lambda>(t, w). t @ w) tws)) =
         Inr (map (\<lambda>(t, w). word_of_int (hex_value t)) tws)"
proof -
  have g: "list_all (\<lambda>(t, w). t \<noteq> [] \<and> list_all (\<lambda>c. \<not> isspace c) t \<and> list_all isspace w) tws"
    using assms(2)
    by (rule list.pred_mono_strong) (auto simp: list_all_iff dest: is_hex_facts(8))
  have sp: "py_split (lead @ concat (map (\<lambda>(t, w). t @ w) tws)) = map fst tws"
    by (rule py_split_spaced [OF assms(1) g assms(3)])
  have tr: "traverse (py_int16 udec) (map fst tws) = Inr (map hex_value (map fst tws))"
    using assms(2)
    by (intro traverse_Inr_map) (auto simp: py_int16_def parse_int16_hex list_all_iff)
  have rng: "list_all (\<lambda>n. 0 \<le> n \<and> n < 256) (map hex_value (map fst tws))"
    using assms(2) by (auto simp: list_all_iff hex_value_nonneg)
  have w: "map word_of_int (map hex_value (map fst tws)) =
        map (\<lambda>(t, w). word_of_int (hex_value t)) tws"
    by (simp add: case_prod_unfold)
  have "py_bytes (map hex_value (map fst tws)) =
        Inr (map (\<lambda>(t, w). word_of_int (hex_value t)) tws)"
    by (simp only: py_bytes_def rng if_True w)
  then show ?thesis
    by (simp only: HexifySpaces_encode_def sp tr sum.case)
qed

section \<open>The claims\<close>

subsection \<open>C1\<close>

text \<open>
  C1, as stated, fails in its four-byte equation: \<open>MajinTenseiIIByte.decode\<close> takes
  byte strings of length 1 and looks up \<open>bytestr[0]\<close> only, so on \<open>[t0, t1]\<close> it gives
  the entry of \<open>t0\<close> alone, while \<open>Mt2GarbageTextPair.decode([t0, g0, t1, g1])\<close> ends in
  the entries of both \<open>t0\<close> and \<open>t1\<close>.
\<close>

theorem Mt2GarbageTextPair_decode_four_bytes_counterexample:
  "Mt2GarbageTextPair_decode [0x41 \<mapsto> str ''A'', 0x42 \<mapsto> str ''B''] [0x41, 0x01, 0x42, 0x02] =
     Inr ([257, 258] @ str ''AB'')
   \<and> append_results (MonospaceASCII_decode [0x01, 0x02])
       (MajinTenseiIIByte_decode [0x41 \<mapsto> str ''A'', 0x42 \<mapsto> str ''B''] [0x41, 0x42]) =
     Inr ([257, 258] @ str ''A'')
   \<and> Mt2GarbageTextPair_decode [0x41 \<mapsto> str ''A'', 0x42 \<mapsto> str ''B''] [0x41, 0x01, 0x42, 0x02] \<noteq>
     append_results (MonospaceASCII_decode [0x01, 0x02])
       (MajinTenseiIIByte_decode [0x41 \<mapsto> str ''A'', 0x42 \<mapsto> str ''B''] [0x41, 0x42])"
  by (simp add: Mt2GarbageTextPair_decode_def MonospaceASCII_decode_eq
      MonospaceASCIIByte_decode_single MajinTenseiIIByte_decode_def append_results_def
      isprintable_def str_def)

text \<open>
  C1, amended. For every byte buffer \<open>bs\<close>, \<open>Mt2GarbageTextPair.decode(bs)\<close> partitions
  \<open>bs\<close> by index parity, keeping the order, decodes the odd-index bytes through the
  monospace-substitution codec to a garbage string, decodes the even-index bytes
  through the table codec, one byte at a time, to a text string, and returns
  \<open>garbage ++ text\<close>, garbage first and not interleaved; a missing table entry is the
  only error. In particular \<open>decode([t0, g0, t1, g1])\<close> is
  \<open>MonospaceASCII.decode([g0, g1]) ++ TableCodec.decode([t0]) ++ TableCodec.decode([t1])\<close>,
  and when every even-index byte has an entry the buffer is decoded whatever the
  parity of its length, the two partitions differing in length by \<open>len(bs) mod 2\<close>.
\<close>

theorem Mt2GarbageTextPair_decode_channels:
  "Mt2GarbageTextPair_decode transliter bs =
     append_results (MonospaceASCII_decode (odd_indexed bs))
       (table_decode_each transliter (even_indexed bs))
   \<and> (list_all (\<lambda>b. transliter (uint b) \<noteq> None) (even_indexed bs) \<longrightarrow>
        (\<exists>garbage. MonospaceASCII_decode (odd_indexed bs) = Inr garbage
           \<and> Mt2GarbageTextPair_decode transliter bs =
               Inr (garbage @ concat (map (\<lambda>b. case transliter (uint b) of
                                                  Some t \<Rightarrow> t | None \<Rightarrow> [])
                                       (even_indexed bs)))))
   \<and> length (even_indexed bs) = length (odd_indexed bs) + length bs mod 2
   \<and> Mt2GarbageTextPair_decode transliter [t0, g0, t1, g1] =
       append_results (MonospaceASCII_decode [g0, g1])
         (append_results (MajinTenseiIIByte_decode transliter [t0])
            (MajinTenseiIIByte_decode transliter [t1]))"
proof -
  have b: "\<exists>garbage. MonospaceASCII_decode (odd_indexed bs) = Inr garbage
           \<and> Mt2GarbageTextPair_decode transliter bs =
               Inr (garbage @ concat (map (\<lambda>b. case transliter (uint b) of
                                                  Some t \<Rightarrow> t | None \<Rightarrow> [])
                                       (even_indexed bs)))"
    if "list_all (\<lambda>b. transliter (uint b) \<noteq> None) (even_indexed bs)"
    by (simp add: Mt2GarbageTextPair_decode_eq table_decode_each_defined [OF that]
        MonospaceASCII_decode_eq append_results_def)
  have c: "Mt2GarbageTextPair_decode transliter [t0, g0, t1, g1] =
       append_results (MonospaceASCII_decode [g0, g1])
         (append_results (MajinTenseiIIByte_decode transliter [t0])
            (MajinTenseiIIByte_decode transliter [t1]))"
    by (simp add: Mt2GarbageTextPair_decode_def MonospaceASCII_decode_eq
        MonospaceASCIIByte_decode_single append_results_def split: sum.splits)
  from b c show ?thesis
    using Mt2GarbageTextPair_decode_eq length_even_odd_indexed by blast
qed

theorem Mt2GarbageTextPair_decode_channels_witness:
  "Mt2GarbageTextPair_decode [0x41 \<mapsto> str ''A'', 0x42 \<mapsto> str ''B''] [0x41, 0x01, 0x42] =
     Inr ([257] @ str ''AB'')"
  using Mt2GarbageTextPair_decode_channels
    [of "[0x41 \<mapsto> str ''A'', 0x42 \<mapsto> str ''B'']" "[0x41, 0x01, 0x42]",
      THEN conjunct2, THEN conjunct1]
  by (simp add: even_indexed_def odd_indexed_def MonospaceASCII_decode_eq isprintable_def
      str_def upt_rec)

subsection \<open>C2\<close>

text \<open>
  C2. The claim: \<open>Hexify.encode(s)\<close> consumes \<open>s\<close> two characters at a time and gives
  one byte per pair, \<open>len(s) / 2\<close> bytes in all, so that
  \<open>Hexify.encode(Hexify.decode([b])) == [b]\<close>. The code steps through \<open>range(len(s))\<close>:
  whenever it returns, it returns one byte per character, and on \<open>"41"\<close>, the
  decoding of the byte \<open>0x41\<close>, it returns the two bytes \<open>0x41, 0x01\<close>.
\<close>

theorem Hexify_encode_one_byte_per_character:
  "Hexify_encode udec (str ''41'') = Inr [0x41, 0x01]
   \<and> Hexify_encode udec (Hexify_decode [0x41]) = Inr [0x41, 0x01]
   \<and> (\<forall>bs. Hexify_encode udec s = Inr bs \<longrightarrow> length bs = length s)"
proof -
  have "length bs = length s" if "Hexify_encode udec s = Inr bs" for bs
  proof -
    from that obtain ns
      where ns: "traverse (\<lambda>i. py_int16 udec (take 2 (drop i s))) [0..<length s] = Inr ns"
        and bs: "py_bytes ns = Inr bs"
      by (auto simp: Hexify_encode_def split: sum.splits)
    from traverse_length [OF ns] py_bytes_length [OF bs] show ?thesis by simp
  qed
  then show ?thesis by (simp add: Hexify_decode_41 Hexify_encode_41)
qed

theorem Hexify_encode_one_byte_per_character_witness:
  "Hexify_encode (\<lambda>_. None) (str ''41'') = Inr [0x41, 0x01]
   \<and> length [0x41, 0x01 :: byte] = length (str ''41'')"
  using Hexify_encode_one_byte_per_character [of "\<lambda>_. None" "str ''41''"]
  by (simp add: str_def)

subsection \<open>C3\<close>

text \<open>
  C3, as stated, fails on the empty buffer: \<open>HexifySpaces.decode(b"")\<close> is the empty
  string, and splitting the empty string on single spaces gives one (empty) token, not
  \<open>len(bs) = 0\<close> tokens.
\<close>

theorem HexifySpaces_decode_empty_counterexample:
  "split_on 32 (HexifySpaces_decode []) = [[]]
   \<and> length (split_on 32 (HexifySpaces_decode [])) \<noteq> length ([] :: bytes)"
  by (simp add: HexifySpaces_decode_def split_on_def)

text \<open>
  C3, amended. For every non-empty byte sequence \<open>bs\<close>, \<open>HexifySpaces.decode(bs)\<close>
  splits on single spaces into exactly \<open>len(bs)\<close> tokens, each the two-character
  uppercase hexadecimal representation of the corresponding byte. For every \<open>bs\<close>, the
  empty one included, the whitespace split that \<open>encode\<close> performs gives exactly these
  \<open>len(bs)\<close> tokens, and \<open>HexifySpaces.encode(HexifySpaces.decode(bs)) == bs\<close>.
\<close>

theorem HexifySpaces_decode_tokens_roundtrip:
  "(bs \<noteq> [] \<longrightarrow>
      split_on 32 (HexifySpaces_decode bs) =
        map (\<lambda>b. [upper_hexchar (unat b div 16), upper_hexchar (unat b mod 16)]) bs)
   \<and> py_split (HexifySpaces_decode bs) =
        map (\<lambda>b. [upper_hexchar (unat b div 16), upper_hexchar (unat b mod 16)]) bs
   \<and> HexifySpaces_encode udec (HexifySpaces_decode bs) = Inr bs"
proof -
  have toks: "map hex2 bs =
      map (\<lambda>b. [upper_hexchar (unat b div 16), upper_hexchar (unat b mod 16)]) bs"
    by (simp add: hex2_eq)
  have "split_on 32 (HexifySpaces_decode bs) = map hex2 bs" if "bs \<noteq> []"
    using that split_on_join [OF _ hex2_no_space, of bs]
    by (simp add: HexifySpaces_decode_join)
  moreover have "py_split (HexifySpaces_decode bs) = map hex2 bs"
    by (simp only: HexifySpaces_decode_join py_split_join [OF hex2_tokens])
  ultimately show ?thesis
    by (simp only: toks HexifySpaces_roundtrip) simp
qed

theorem HexifySpaces_decode_tokens_roundtrip_witness:
  "split_on 32 (HexifySpaces_decode [0x41, 0x0A]) = [str ''41'', str ''0A'']
   \<and> HexifySpaces_encode (\<lambda>_. None) (HexifySpaces_decode [0x41, 0x0A]) = Inr [0x41, 0x0A]"
  using HexifySpaces_decode_tokens_roundtrip [of "[0x41, 0x0A]" "\<lambda>_. None"]
  by (simp add: upper_hexchar_def str_def)

subsection \<open>C4\<close>

text \<open>
  C4. For every byte buffer \<open>bs\<close>, \<open>Hexify.decode(bs)\<close> is, byte after byte in buffer
  order, the two uppercase hexadecimal characters of the byte (the high digit first,
  a zero when the byte is below 16), and its length is exactly \<open>2 * len(bs)\<close>.
\<close>

theorem Hexify_decode_two_uppercase_digits:
  "Hexify_decode bs =
     concat (map (\<lambda>b. [upper_hexchar (unat b div 16), upper_hexchar (unat b mod 16)]) bs)
   \<and> length (Hexify_decode bs) = 2 * length bs"
proof -
  have eq: "Hexify_decode bs =
     concat (map (\<lambda>b. [upper_hexchar (unat b div 16), upper_hexchar (unat b mod 16)]) bs)"
  proof -
    have "map hex2 bs =
      map (\<lambda>b. [upper_hexchar (unat b div 16), upper_hexchar (unat b mod 16)]) bs"
      by (simp add: hex2_eq)
    then show ?thesis by (simp only: Hexify_decode_def join_Nil_sep)
  qed
  have "length (Hexify_decode bs) = 2 * length bs"
    unfolding eq by (induction bs) simp_all
  with eq show ?thesis by simp
qed

theorem Hexify_decode_two_uppercase_digits_witness:
  "Hexify_decode [0x41, 0x0A, 0xFF, 0] = str ''410AFF00''
   \<and> length (Hexify_decode [0x41, 0x0A, 0xFF, 0]) = 8"
  using Hexify_decode_two_uppercase_digits [of "[0x41, 0x0A, 0xFF, 0]"]
  by (simp add: upper_hexchar_def str_def)

subsection \<open>C5\<close>

text \<open>
  C5. For every byte \<open>b\<close>, \<open>MonospaceASCIIByte.decode([b])\<close> is the character with code
  point \<open>b\<close> when that character is printable, and the character with code point
  \<open>256 + b\<close> otherwise, a code point in 256..511 and so none of a byte; the byte
  \<open>0x41\<close> gives \<open>"A"\<close> and the byte \<open>0x01\<close> gives \<open>chr(257)\<close>.
\<close>

theorem MonospaceASCIIByte_decode_printable_or_substituted:
  "MonospaceASCIIByte_decode [b] =
     Inr [if isprintable (unat b) then unat b else 256 + unat b]
   \<and> 256 + unat b \<in> {256..511}
   \<and> MonospaceASCIIByte_decode [0x41] = Inr (str ''A'')
   \<and> MonospaceASCIIByte_decode [0x01] = Inr [257]"
proof -
  have gen: "MonospaceASCIIByte_decode [c] =
     Inr [if isprintable (unat c) then unat c else 256 + unat c]" for c
    by (simp add: MonospaceASCIIByte_decode_def replacements_nth)
  have "MonospaceASCIIByte_decode [0x41] = Inr (str ''A'')"
    by (simp add: gen isprintable_def str_def)
  moreover have "MonospaceASCIIByte_decode [0x01] = Inr [257]"
    by (simp add: gen isprintable_def)
  moreover have "256 + unat b \<in> {256..511}"
    using unat_byte_less [of b] by simp
  ultimately show ?thesis using gen [of b] by simp
qed

theorem MonospaceASCIIByte_decode_printable_or_substituted_witness:
  "MonospaceASCIIByte_decode [0xA0] = Inr [416]
   \<and> MonospaceASCIIByte_decode [0xE9] = Inr [233]"
  using MonospaceASCIIByte_decode_printable_or_substituted [of "0xA0"]
    MonospaceASCIIByte_decode_printable_or_substituted [of "0xE9"]
  by (simp add: isprintable_def)

subsection \<open>C6\<close>

text \<open>
  C6. For every byte \<open>b\<close>, \<open>MajinTenseiIIByte.decode([b])\<close> is exactly the entry of the
  transliteration table for \<open>b\<close> when the table has one, and raises the lookup error
  of the dictionary (\<open>KeyError\<close>, the specification's \<open>UndefinedByteMapping\<close>) when it
  has none. The class defines no \<open>encode\<close>: calling it raises the
  \<open>NotImplementedError\<close> of the abstract class.
\<close>

theorem MajinTenseiIIByte_decode_lookup:
  "(transliter (uint b) = Some glyph \<longrightarrow>
      MajinTenseiIIByte_decode transliter [b] = Inr glyph)
   \<and> (transliter (uint b) = None \<longrightarrow>
      MajinTenseiIIByte_decode transliter [b] = Inl (KeyError (uint b)))
   \<and> \<not> defines_encode MajinTenseiIIByte
   \<and> encode udec MajinTenseiIIByte s = Inl (NotImplementedError MajinTenseiIIByte)"
  by (simp add: MajinTenseiIIByte_decode_def Codec_encode_def)

theorem MajinTenseiIIByte_decode_lookup_witness:
  "MajinTenseiIIByte_decode [0x41 \<mapsto> str ''A''] [0x41] = Inr (str ''A'')
   \<and> MajinTenseiIIByte_decode [0x41 \<mapsto> str ''A''] [0x42] = Inl (KeyError 0x42)
   \<and> encode (\<lambda>_. None) MajinTenseiIIByte (str ''A'') =
       Inl (NotImplementedError MajinTenseiIIByte)"
  using MajinTenseiIIByte_decode_lookup
      [of "[0x41 \<mapsto> str ''A'']" "0x41" "str ''A''" "\<lambda>_. None" "str ''A''"]
    MajinTenseiIIByte_decode_lookup
      [of "[0x41 \<mapsto> str ''A'']" "0x42" "str ''A''" "\<lambda>_. None" "str ''A''"]
  by simp

subsection \<open>C7\<close>




subsection \<open>C8\<close>

text \<open>
  C8. For every class that does not define \<open>encode\<close>, that is ASCII,
  MonospaceASCIIByte, MonospaceASCII, MajinTenseiIIByte and Mt2GarbageTextPair, calling
  \<open>encode\<close> raises \<open>NotImplementedError\<close> (the specification's \<open>UnsupportedOperation\<close>)
  on every input: no value is returned and nothing of the input is processed.
\<close>

theorem inherited_encode_raises:
  "(\<not> defines_encode cls \<longrightarrow> encode udec cls s = Inl (NotImplementedError cls))
   \<and> (\<not> defines_encode cls \<longleftrightarrow>
        cls \<in> {ASCII, MonospaceASCIIByte, MonospaceASCII, MajinTenseiIIByte,
                Mt2GarbageTextPair})"
  by (cases cls) (simp_all add: Codec_encode_def)

theorem inherited_encode_raises_witness:
  "\<not> defines_encode ASCII
   \<and> encode (\<lambda>_. None) ASCII (str ''41'') = Inl (NotImplementedError ASCII)"
  using inherited_encode_raises [of ASCII "\<lambda>_. None" "str ''41''"]
  by simp

subsection \<open>C9\<close>

text \<open>
  C9. On a buffer of at least one byte, \<open>MonospaceASCIIByte.decode\<close> depends on the
  first byte only: \<open>decode([b] + rest) == decode([b])\<close> for every \<open>rest\<close>, and the result
  is exactly one character. On the empty buffer it raises \<open>IndexError\<close>.
\<close>

theorem MonospaceASCIIByte_decode_first_byte_only:
  "MonospaceASCIIByte_decode (b # rest) = MonospaceASCIIByte_decode [b]
   \<and> (\<exists>c. MonospaceASCIIByte_decode (b # rest) = Inr [c])
   \<and> MonospaceASCIIByte_decode [] = Inl IndexError"
  by (simp add: MonospaceASCIIByte_decode_def)

theorem MonospaceASCIIByte_decode_first_byte_only_witness:
  "MonospaceASCIIByte_decode [0x41, 0x01, 0x02] = MonospaceASCIIByte_decode [0x41]"
  using MonospaceASCIIByte_decode_first_byte_only [of "0x41" "[0x01, 0x02]"]
  by simp

subsection \<open>C10\<close>

text \<open>
  C10. \<open>HexifySpaces.encode\<close> splits its input on every run of whitespace, not only on
  single spaces, and accepts a token of any number of hexadecimal digits, provided its
  value is in \<open>[0, 255]\<close>. For every input made of any whitespace \<open>lead\<close>, then any
  tokens without whitespace, each followed by a run \<open>w\<close> of whitespace of any length
  (not empty between two tokens, possibly empty after the last), the split gives
  exactly the tokens; when the tokens are hexadecimal digits, however many, with values
  below 256, the result is the bytes of these values. So \<open>encode("0041")\<close> is the
  single byte \<open>0x41\<close>, and \<open>encode("41  02")\<close>, with two separating spaces, is the two
  bytes \<open>0x41, 0x02\<close>.
\<close>

theorem HexifySpaces_encode_lenient:
  "(list_all isspace lead
      \<and> list_all (\<lambda>(t, w). t \<noteq> [] \<and> list_all (\<lambda>c. \<not> isspace c) t \<and> list_all isspace w) tws
      \<and> list_all (\<lambda>(t, w). w \<noteq> []) (butlast tws)
    \<longrightarrow> py_split (lead @ concat (map (\<lambda>(t, w). t @ w) tws)) = map fst tws)
   \<and> (list_all isspace lead
      \<and> list_all (\<lambda>(t, w). t \<noteq> [] \<and> list_all is_hex t \<and> hex_value t < 256
                      \<and> list_all isspace w) tws
      \<and> list_all (\<lambda>(t, w). w \<noteq> []) (butlast tws)
    \<longrightarrow> HexifySpaces_encode udec (lead @ concat (map (\<lambda>(t, w). t @ w) tws)) =
          Inr (map (\<lambda>(t, w). word_of_int (hex_value t)) tws))
   \<and> HexifySpaces_encode udec (str ''0041'') = Inr [0x41]
   \<and> HexifySpaces_encode udec (str ''41  02'') = Inr [0x41, 0x02]"
proof -
  have "HexifySpaces_encode udec (str ''0041'') = Inr [0x41]"
    using HexifySpaces_encode_spaced [of "[]" "[(str ''0041'', [])]" udec]
    by (simp add: str_def is_hex_def hex_digit_def hex_value_def)
  moreover have "HexifySpaces_encode udec (str ''41  02'') = Inr [0x41, 0x02]"
    using HexifySpaces_encode_spaced [of "[]" "[(str ''41'', str ''  ''), (str ''02'', [])]" udec]
    by (simp add: str_def is_hex_def hex_digit_def hex_value_def isspace_def)
  ultimately show ?thesis
    using py_split_spaced [of lead tws] HexifySpaces_encode_spaced [of lead tws udec]
    by blast
qed

theorem HexifySpaces_encode_lenient_witness:
  "HexifySpaces_encode (\<lambda>_. None) (str '' 0041  0002'' @ [9, 10] @ str ''00000fF '') =
     Inr [0x41, 0x02, 0xFF]
   \<and> py_split ([160] @ str ''ab  c,d'' @ [9]) = [str ''ab'', str ''c,d'']"
  using HexifySpaces_encode_lenient
      [of "str '' ''" "[(str ''0041'', str ''  ''), (str ''0002'', [9, 10]), (str ''00000fF'', str '' '')]"
        "\<lambda>_. None"]
    HexifySpaces_encode_lenient
      [of "[160]" "[(str ''ab'', str ''  ''), (str ''c,d'', [9])]" "\<lambda>_. None"]
  by (simp add: str_def is_hex_def hex_digit_def hex_value_def isspace_def)

end
